theory Spec2Isabelle
  imports Complex_Main "HOL-Library.Signed_Division"
begin

section \<open>Common conventions\<close>

text \<open>
  Instants (Go \<^verbatim>\<open>time.Time\<close>) are integers: nanoseconds elapsed since the zero value of
  \<^verbatim>\<open>time.Time\<close>, so the zero instant is \<open>0\<close> and every instant the wall clock can
  return is positive. Durations (Go \<^verbatim>\<open>time.Duration\<close>) are integers in nanoseconds.
  \<^verbatim>\<open>a.Before(b)\<close> is \<open>a < b\<close>, \<^verbatim>\<open>a.After(b)\<close> is \<open>b < a\<close>,
  \<^verbatim>\<open>a.Add(d)\<close> is \<open>a + d\<close> and \<^verbatim>\<open>a.Sub(b)\<close> is \<open>a - b\<close>.
  Every function of the source that reads the clock takes the instant read as its
  argument \<open>now\<close>; one call of an operation reads one instant.

  Go's \<^verbatim>\<open>int\<close> and \<^verbatim>\<open>int64\<close> are modelled by \<open>int\<close>: the counters of this program
  grow by at most a few units per call and stay far below \<open>2^63\<close>.
  Go's \<^verbatim>\<open>%\<close> truncates towards zero: it is \<open>smod\<close>.
  A Go string is its list of bytes, and \<^verbatim>\<open>len\<close> counts bytes.
\<close>

type_synonym time = int
type_synonym duration = int

definition Second :: duration where
  "Second = 1000000000"

definition Minute :: duration where
  "Minute = 60 * Second"

text \<open>The run-time panics that the modelled code can raise.\<close>

datatype panic = IndexOutOfRange | DivideByZero | MakeSliceLenOutOfRange | NilDereference

text \<open>The fields of \<^verbatim>\<open>ChatConfig\<close> that the modelled code reads, and their defaults.\<close>

record ChatConfig =
  MaxTotalMemoryMB :: int
  MaxMessagesPerStream :: int
  MaxCharactersPerMessage :: int

definition DefaultConfig :: ChatConfig where
  "DefaultConfig =
     \<lparr>MaxTotalMemoryMB = 100, MaxMessagesPerStream = 500, MaxCharactersPerMessage = 500\<rparr>"

section \<open>Messages and the ring buffer (internal/chat/types.go)\<close>

record ChatMessage =
  msg_ID :: string
  msg_StreamKey :: string
  msg_UserID :: string
  msg_Username :: string
  msg_Message :: string
  msg_Timestamp :: time

text \<open>The zero value of \<^verbatim>\<open>ChatMessage\<close>, with which \<^verbatim>\<open>make\<close> fills a new slice.\<close>

definition zeroChatMessage :: ChatMessage where
  "zeroChatMessage =
     \<lparr>msg_ID = [], msg_StreamKey = [], msg_UserID = [], msg_Username = [],
      msg_Message = [], msg_Timestamp = 0\<rparr>"

record CircularBuffer =
  cb_data :: "ChatMessage list"
  cb_maxSize :: int
  cb_head :: int
  cb_tail :: int
  cb_size :: int

text \<open>\<^verbatim>\<open>make([]ChatMessage, maxSize)\<close> panics on a negative length.\<close>

definition NewCircularBuffer :: "int \<Rightarrow> panic + CircularBuffer" where
  "NewCircularBuffer maxSize =
     (if maxSize < 0 then Inl MakeSliceLenOutOfRange
      else Inr \<lparr>cb_data = replicate (nat maxSize) zeroChatMessage, cb_maxSize = maxSize,
                cb_head = 0, cb_tail = 0, cb_size = 0\<rparr>)"

text \<open>
  \<^verbatim>\<open>Add\<close>: the store \<^verbatim>\<open>cb.data[cb.tail] = msg\<close> panics when the index is out of range,
  the remainder \<^verbatim>\<open>% cb.maxSize\<close> panics when the capacity is zero.
\<close>

definition Add :: "CircularBuffer \<Rightarrow> ChatMessage \<Rightarrow> panic + CircularBuffer" where
  "Add cb msg =
     (if \<not> (0 \<le> cb_tail cb \<and> cb_tail cb < int (length (cb_data cb))) then Inl IndexOutOfRange
      else if cb_maxSize cb = 0 then Inl DivideByZero
      else
        let cb1 = cb\<lparr>cb_data := (cb_data cb)[nat (cb_tail cb) := msg],
                     cb_tail := (cb_tail cb + 1) smod cb_maxSize cb\<rparr>
        in if cb_size cb1 < cb_maxSize cb1
           then Inr (cb1\<lparr>cb_size := cb_size cb1 + 1\<rparr>)
           else Inr (cb1\<lparr>cb_head := (cb_head cb1 + 1) smod cb_maxSize cb1\<rparr>))"

text \<open>
  The copying loop of \<^verbatim>\<open>GetAll\<close>, \<^verbatim>\<open>for i := 0; i < cb.size; i++\<close>: the first argument
  after the buffer is the loop variable \<open>i\<close>, the second the number of iterations left.
  The slots \<^verbatim>\<open>result[i]\<close> are written in increasing order, so the result is built
  front to back.
\<close>

fun GetAll_loop :: "CircularBuffer \<Rightarrow> int \<Rightarrow> nat \<Rightarrow> panic + ChatMessage list" where
  "GetAll_loop cb i 0 = Inr []"
| "GetAll_loop cb i (Suc n) =
     (if cb_maxSize cb = 0 then Inl DivideByZero
      else
        let idx = (cb_head cb + i) smod cb_maxSize cb
        in if \<not> (0 \<le> idx \<and> idx < int (length (cb_data cb))) then Inl IndexOutOfRange
           else (case GetAll_loop cb (i + 1) n of
                   Inl e \<Rightarrow> Inl e
                 | Inr result \<Rightarrow> Inr (cb_data cb ! nat idx # result)))"

definition GetAll :: "CircularBuffer \<Rightarrow> panic + ChatMessage list" where
  "GetAll cb =
     (if cb_size cb = 0 then Inr []
      else if cb_size cb < 0 then Inl MakeSliceLenOutOfRange
      else GetAll_loop cb 0 (nat (cb_size cb)))"

text \<open>
  The copying loop of \<^verbatim>\<open>GetRecent\<close>, \<^verbatim>\<open>for i := 0; i < count; i++\<close>, reading slot
  \<^verbatim>\<open>(cb.head + startIdx + i) % cb.maxSize\<close>.
\<close>

fun GetRecent_loop :: "CircularBuffer \<Rightarrow> int \<Rightarrow> int \<Rightarrow> nat \<Rightarrow> panic + ChatMessage list" where
  "GetRecent_loop cb startIdx i 0 = Inr []"
| "GetRecent_loop cb startIdx i (Suc n) =
     (if cb_maxSize cb = 0 then Inl DivideByZero
      else
        let idx = (cb_head cb + startIdx + i) smod cb_maxSize cb
        in if \<not> (0 \<le> idx \<and> idx < int (length (cb_data cb))) then Inl IndexOutOfRange
           else (case GetRecent_loop cb startIdx (i + 1) n of
                   Inl e \<Rightarrow> Inl e
                 | Inr result \<Rightarrow> Inr (cb_data cb ! nat idx # result)))"

text \<open>\<^verbatim>\<open>make([]ChatMessage, count)\<close> panics when \<open>count\<close> is negative.\<close>

definition GetRecent :: "CircularBuffer \<Rightarrow> int \<Rightarrow> panic + ChatMessage list" where
  "GetRecent cb n =
     (if cb_size cb = 0 then Inr []
      else
        let count = (if n > cb_size cb then cb_size cb else n)
        in if count < 0 then Inl MakeSliceLenOutOfRange
           else GetRecent_loop cb (cb_size cb - count) 0 (nat count))"

text \<open>A sequence of appends; it stops at the first panic, as the program would.\<close>

fun Add_all :: "CircularBuffer \<Rightarrow> ChatMessage list \<Rightarrow> panic + CircularBuffer" where
  "Add_all cb [] = Inr cb"
| "Add_all cb (m # ms) = (case Add cb m of Inl e \<Rightarrow> Inl e | Inr cb' \<Rightarrow> Add_all cb' ms)"


text \<open>
  The loop of \<^verbatim>\<open>RemoveOlderThan\<close>, \<^verbatim>\<open>for cb.size > 0\<close>, with the counter
  \<^verbatim>\<open>removed\<close>; it leaves by \<^verbatim>\<open>break\<close> at the first message newer than the cutoff.
\<close>

function RemoveOlderThan_loop ::
  "time \<Rightarrow> CircularBuffer \<Rightarrow> int \<Rightarrow> panic + (CircularBuffer \<times> int)" where
  "RemoveOlderThan_loop cutoff cb removed =
     (if cb_size cb > 0 then
        (if \<not> (0 \<le> cb_head cb \<and> cb_head cb < int (length (cb_data cb))) then Inl IndexOutOfRange
         else
           let msg = cb_data cb ! nat (cb_head cb)
           in if cutoff < msg_Timestamp msg then Inr (cb, removed)
              else if cb_maxSize cb = 0 then Inl DivideByZero
              else RemoveOlderThan_loop cutoff
                     (cb\<lparr>cb_head := (cb_head cb + 1) smod cb_maxSize cb,
                         cb_size := cb_size cb - 1\<rparr>)
                     (removed + 1))
      else Inr (cb, removed))"
  by pat_completeness auto
termination
  by (relation "measure (\<lambda>(cutoff, cb, removed). nat (cb_size cb))") auto

definition RemoveOlderThan ::
  "time \<Rightarrow> CircularBuffer \<Rightarrow> duration \<Rightarrow> panic + (CircularBuffer \<times> int)" where
  "RemoveOlderThan now cb d =
     (if cb_size cb = 0 then Inr (cb, 0)
      else RemoveOlderThan_loop (now - d) cb 0)"

section \<open>Rooms (internal/chat/types.go)\<close>

text \<open>
  A room, without its roster \<^verbatim>\<open>Users\<close> and without its two mutexes: the operations
  modelled here do not read the roster, and each takes and releases one room mutex
  around its body.
\<close>

record ChatRoom =
  room_StreamKey :: string
  room_Messages :: CircularBuffer
  room_LastActivity :: time
  room_MessageCount :: int
  room_BytesUsed :: int

definition NewChatRoom :: "time \<Rightarrow> string \<Rightarrow> int \<Rightarrow> panic + ChatRoom" where
  "NewChatRoom now streamKey maxMessages =
     (case NewCircularBuffer maxMessages of
        Inl p \<Rightarrow> Inl p
      | Inr cb \<Rightarrow>
          Inr \<lparr>room_StreamKey = streamKey, room_Messages = cb, room_LastActivity = now,
               room_MessageCount = 0, room_BytesUsed = 0\<rparr>)"

text \<open>The estimate \<^verbatim>\<open>msgSize\<close> of \<^verbatim>\<open>ChatRoom.AddMessage\<close>.\<close>

definition msgSize :: "ChatMessage \<Rightarrow> int" where
  "msgSize msg =
     int (length (msg_ID msg)) + int (length (msg_StreamKey msg)) + int (length (msg_UserID msg)) +
     int (length (msg_Username msg)) + int (length (msg_Message msg)) + 100"

text \<open>\<^verbatim>\<open>ChatRoom.AddMessage\<close>.\<close>

definition AddMessage :: "time \<Rightarrow> ChatRoom \<Rightarrow> ChatMessage \<Rightarrow> panic + ChatRoom" where
  "AddMessage now cr msg =
     (case Add (room_Messages cr) msg of
        Inl p \<Rightarrow> Inl p
      | Inr cb \<Rightarrow>
          Inr (cr\<lparr>room_Messages := cb,
                  room_LastActivity := now,
                  room_MessageCount := room_MessageCount cr + 1,
                  room_BytesUsed := room_BytesUsed cr + msgSize msg\<rparr>))"

text \<open>\<^verbatim>\<open>ChatRoom.CleanupOldMessages\<close>, with the number of messages removed.\<close>

definition CleanupOldMessages :: "time \<Rightarrow> ChatRoom \<Rightarrow> duration \<Rightarrow> panic + (ChatRoom \<times> int)" where
  "CleanupOldMessages now cr retention =
     (case RemoveOlderThan now (room_Messages cr) retention of
        Inl p \<Rightarrow> Inl p
      | Inr (cb, removed) \<Rightarrow>
          let cr1 = cr\<lparr>room_Messages := cb\<rparr>
          in if removed > 0 then
               let avgMessageSize = 500;
                   bytes = room_BytesUsed cr1 - removed * avgMessageSize
               in Inr (cr1\<lparr>room_BytesUsed := (if bytes < 0 then 0 else bytes)\<rparr>, removed)
             else Inr (cr1, removed))"

section \<open>The manager, its directory lock and the memory monitor\<close>

record MemoryTracker =
  TotalBytes :: int
  TotalMessages :: int
  ActiveStreams :: int
  MaxBytes :: int

definition Update :: "MemoryTracker \<Rightarrow> int \<Rightarrow> int \<Rightarrow> int \<Rightarrow> MemoryTracker" where
  "Update mt bytesUsed messageCount streamCount =
     mt\<lparr>TotalBytes := bytesUsed, TotalMessages := messageCount, ActiveStreams := streamCount\<rparr>"

text \<open>
  \<^verbatim>\<open>float64(mt.TotalBytes) / float64(mt.MaxBytes) > x\<close>. The quotient of the two
  byte counts is taken exactly; a division by zero gives \<^verbatim>\<open>+Inf\<close> for a positive
  numerator (above every threshold) and \<^verbatim>\<open>NaN\<close> or \<^verbatim>\<open>-Inf\<close> otherwise (above none).
\<close>

definition usageAbove :: "MemoryTracker \<Rightarrow> rat \<Rightarrow> bool" where
  "usageAbove mt x =
     (if MaxBytes mt = 0 then TotalBytes mt > 0
      else of_int (TotalBytes mt) / of_int (MaxBytes mt) > x)"

definition IsNearLimit :: "MemoryTracker \<Rightarrow> bool" where
  "IsNearLimit mt = usageAbove mt (8 / 10)"

definition IsCritical :: "MemoryTracker \<Rightarrow> bool" where
  "IsCritical mt = usageAbove mt (9 / 10)"

text \<open>
  The state of a \<^verbatim>\<open>sync.RWMutex\<close>: the number of read locks held and whether the write
  lock is held. An acquisition that cannot be granted in the current state gives
  \<open>None\<close>: the calling goroutine waits until the holders release.
\<close>

record RWMutex =
  readers :: nat
  writer :: bool

definition RLock :: "RWMutex \<Rightarrow> RWMutex option" where
  "RLock mu = (if writer mu then None else Some (mu\<lparr>readers := readers mu + 1\<rparr>))"

definition RUnlock :: "RWMutex \<Rightarrow> RWMutex" where
  "RUnlock mu = mu\<lparr>readers := readers mu - 1\<rparr>"

definition Lock :: "RWMutex \<Rightarrow> RWMutex option" where
  "Lock mu = (if writer mu \<or> readers mu > 0 then None else Some (mu\<lparr>writer := True\<rparr>))"

definition Unlock :: "RWMutex \<Rightarrow> RWMutex" where
  "Unlock mu = mu\<lparr>writer := False\<rparr>"

text \<open>
  What a call does when it is run by one goroutine while no other goroutine releases a
  lock or takes a frame from a channel: it returns, it panics, or it waits (for a lock,
  or for room in a channel that is full) and does not go on by itself.
\<close>

datatype 'a outcome = Returns 'a | Panics panic | Blocks

text \<open>
  The directory \<^verbatim>\<open>rooms\<close> is a Go map; it is an association list with distinct keys
  here, so that the loops over it can be written. The order in which Go walks a map is
  unspecified, and none of the loops below depends on it.
\<close>

record Manager =
  rooms :: "(string \<times> ChatRoom) list"
  roomsMux :: RWMutex
  memTracker :: MemoryTracker

definition setRoom :: "string \<Rightarrow> ChatRoom \<Rightarrow> (string \<times> ChatRoom) list \<Rightarrow> (string \<times> ChatRoom) list" where
  "setRoom streamKey room rs =
     (if streamKey \<in> fst ` set rs
      then map (\<lambda>(k, r). if k = streamKey then (k, room) else (k, r)) rs
      else rs @ [(streamKey, room)])"

definition GetOrCreateRoom ::
  "ChatConfig \<Rightarrow> time \<Rightarrow> Manager \<Rightarrow> string \<Rightarrow> (ChatRoom \<times> Manager) outcome" where
  "GetOrCreateRoom config now m streamKey =
     (case Lock (roomsMux m) of
        None \<Rightarrow> Blocks
      | Some mu \<Rightarrow>
          (case map_of (rooms m) streamKey of
             Some room \<Rightarrow> Returns (room, m\<lparr>roomsMux := Unlock mu\<rparr>)
           | None \<Rightarrow>
               (case NewChatRoom now streamKey (MaxMessagesPerStream config) of
                  Inl p \<Rightarrow> Panics p
                | Inr room \<Rightarrow>
                    Returns (room, m\<lparr>rooms := setRoom streamKey room (rooms m),
                                      roomsMux := Unlock mu\<rparr>))))"

text \<open>
  \<^verbatim>\<open>Manager.AddMessage\<close>; \<open>newID\<close> is the identifier that \<^verbatim>\<open>uuid.New()\<close> draws. The room
  is a pointer held by the directory, so the room changed is the directory's entry.
\<close>

definition Manager_AddMessage ::
  "ChatConfig \<Rightarrow> time \<Rightarrow> string \<Rightarrow> Manager \<Rightarrow> string \<Rightarrow> string \<Rightarrow> string \<Rightarrow> string
     \<Rightarrow> (ChatMessage \<times> Manager) outcome" where
  "Manager_AddMessage config now newID m streamKey userID username message =
     (case GetOrCreateRoom config now m streamKey of
        Blocks \<Rightarrow> Blocks
      | Panics p \<Rightarrow> Panics p
      | Returns (room, m1) \<Rightarrow>
          let msg = \<lparr>msg_ID = newID, msg_StreamKey = streamKey, msg_UserID = userID,
                     msg_Username = username, msg_Message = message, msg_Timestamp = now\<rparr>
          in (case AddMessage now room msg of
                Inl p \<Rightarrow> Panics p
              | Inr room' \<Rightarrow> Returns (msg, m1\<lparr>rooms := setRoom streamKey room' (rooms m1)\<rparr>)))"

text \<open>The loop of \<^verbatim>\<open>performEmergencyCleanup\<close> over the rooms, with \<^verbatim>\<open>totalRemoved\<close>.\<close>

fun cleanupRooms ::
  "time \<Rightarrow> duration \<Rightarrow> (string \<times> ChatRoom) list \<Rightarrow> panic + ((string \<times> ChatRoom) list \<times> int)" where
  "cleanupRooms now retention [] = Inr ([], 0)"
| "cleanupRooms now retention ((k, room) # rest) =
     (case CleanupOldMessages now room retention of
        Inl p \<Rightarrow> Inl p
      | Inr (room', removed) \<Rightarrow>
          (case cleanupRooms now retention rest of
             Inl p \<Rightarrow> Inl p
           | Inr (rest', totalRemoved) \<Rightarrow> Inr ((k, room') # rest', removed + totalRemoved)))"

definition performEmergencyCleanup :: "time \<Rightarrow> Manager \<Rightarrow> Manager outcome" where
  "performEmergencyCleanup now m =
     (case Lock (roomsMux m) of
        None \<Rightarrow> Blocks
      | Some mu \<Rightarrow>
          let emergencyRetention = 10 * Minute
          in (case cleanupRooms now emergencyRetention (rooms m) of
                Inl p \<Rightarrow> Panics p
              | Inr (rooms', totalRemoved) \<Rightarrow> Returns (m\<lparr>rooms := rooms', roomsMux := Unlock mu\<rparr>)))"

text \<open>
  \<^verbatim>\<open>updateMemoryStats\<close>, one tick of the monitor worker. The read lock taken on entry is
  released by a deferred call, that is when the function returns: it is still held
  while \<^verbatim>\<open>performEmergencyCleanup\<close> runs. The branch for usage above 80% writes to the
  log only.
\<close>

definition updateMemoryStats :: "time \<Rightarrow> Manager \<Rightarrow> Manager outcome" where
  "updateMemoryStats now m =
     (case RLock (roomsMux m) of
        None \<Rightarrow> Blocks
      | Some mu \<Rightarrow>
          let m1 = m\<lparr>roomsMux := mu\<rparr>;
              totalBytes = sum_list (map (\<lambda>(k, room). room_BytesUsed room) (rooms m1));
              totalMessages = sum_list (map (\<lambda>(k, room). room_MessageCount room) (rooms m1));
              m2 = m1\<lparr>memTracker :=
                       Update (memTracker m1) totalBytes totalMessages (int (length (rooms m1)))\<rparr>
          in if IsCritical (memTracker m2) then
               (case performEmergencyCleanup now m2 of
                  Blocks \<Rightarrow> Blocks
                | Panics p \<Rightarrow> Panics p
                | Returns m3 \<Rightarrow> Returns (m3\<lparr>roomsMux := RUnlock (roomsMux m3)\<rparr>))
             else Returns (m2\<lparr>roomsMux := RUnlock (roomsMux m2)\<rparr>))"

section \<open>The rate limiter (per-user records, multi-tier check, reaper)\<close>

record ChatError =
  Code :: string
  Message :: string

record UserRateRecord =
  UserID :: string
  Messages :: "time list"
  MessageContents :: "string list"
  CharCountHistory :: "int list"
  TimeoutUntil :: time
  Violations :: int
  LastCleanup :: time

text \<open>The limiter's map \<^verbatim>\<open>userRecords\<close>; the records are reached through it only.\<close>

type_synonym userRecords = "string \<rightharpoonup> UserRateRecord"

definition getOrCreateRecord :: "time \<Rightarrow> userRecords \<Rightarrow> string \<Rightarrow> UserRateRecord \<times> userRecords" where
  "getOrCreateRecord now rl userID =
     (case rl userID of
        Some record \<Rightarrow> (record, rl)
      | None \<Rightarrow>
          let record = \<lparr>UserID = userID, Messages = [], MessageContents = [],
                         CharCountHistory = [], TimeoutUntil = 0, Violations = 0,
                         LastCleanup = now\<rparr>
          in (record, rl(userID \<mapsto> record)))"

definition recordMessage :: "time \<Rightarrow> UserRateRecord \<Rightarrow> string \<Rightarrow> int \<Rightarrow> UserRateRecord" where
  "recordMessage now r content charCount =
     r\<lparr>Messages := Messages r @ [now],
       MessageContents := MessageContents r @ [content],
       CharCountHistory := CharCountHistory r @ [charCount]\<rparr>"

definition countMessagesInWindow :: "time \<Rightarrow> UserRateRecord \<Rightarrow> duration \<Rightarrow> int" where
  "countMessagesInWindow now r window =
     (let cutoff = now - window
      in int (length (filter (\<lambda>timestamp. cutoff < timestamp) (Messages r))))"

definition countCharsInWindow :: "time \<Rightarrow> UserRateRecord \<Rightarrow> duration \<Rightarrow> int" where
  "countCharsInWindow now r window =
     (let cutoff = now - window
      in sum_list (map (\<lambda>i. CharCountHistory r ! i)
           (filter (\<lambda>i. cutoff < Messages r ! i \<and> i < length (CharCountHistory r))
              [0..<length (Messages r)])))"

text \<open>
  \<^verbatim>\<open>similarity\<close> returns a \<^verbatim>\<open>float64\<close>, the quotient of two string lengths. It is
  modelled by the exact quotient: for lengths below \<open>2^50\<close> the correctly rounded
  quotient exceeds the \<^verbatim>\<open>float64\<close> constant \<^verbatim>\<open>0.8\<close> exactly when the exact quotient
  exceeds \<open>4/5\<close>, which is the only use made of the value.
\<close>

definition similarity :: "string \<Rightarrow> string \<Rightarrow> rat" where
  "similarity s1 s2 =
     (if s1 = s2 then 1
      else if length s1 = 0 \<or> length s2 = 0 then 0
      else
        let longer = (if length s2 > length s1 then s2 else s1);
            shorter = (if length s2 > length s1 then s1 else s2);
            matches = length (filter (\<lambda>i. i < length longer \<and> shorter ! i = longer ! i)
                                [0..<length shorter])
        in of_nat matches / of_nat (length longer))"

text \<open>
  \<^verbatim>\<open>isDuplicateSpam\<close> normalises with \<^verbatim>\<open>strings.ToLower(strings.TrimSpace(s))\<close>, two
  functions of Go's standard library that work on Unicode text. The normalisation is the
  parameter \<open>normalise\<close>, so that what is proved holds for whatever they compute.
\<close>

definition isDuplicateSpam :: "(string \<Rightarrow> string) \<Rightarrow> UserRateRecord \<Rightarrow> string \<Rightarrow> bool" where
  "isDuplicateSpam normalise r message =
     (if length (MessageContents r) < 3 then False
      else
        let recentCount = (if length (MessageContents r) > 5 then 5 else length (MessageContents r));
            normalizedMessage = normalise message;
            duplicateCount =
              int (length (filter
                (\<lambda>m. let recentMsg = normalise m
                     in recentMsg = normalizedMessage \<or> similarity recentMsg normalizedMessage > 8 / 10)
                (drop (length (MessageContents r) - recentCount) (MessageContents r))))
        in duplicateCount \<ge> 3)"

definition applyTimeout :: "time \<Rightarrow> UserRateRecord \<Rightarrow> duration \<Rightarrow> UserRateRecord" where
  "applyTimeout now r d = r\<lparr>TimeoutUntil := now + d\<rparr>"

definition cleanup :: "time \<Rightarrow> UserRateRecord \<Rightarrow> UserRateRecord" where
  "cleanup now r =
     (if now - LastCleanup r < Minute then r
      else
        let cutoff = now - 5 * Minute;
            kept = filter (\<lambda>i. cutoff < Messages r ! i) [0..<length (Messages r)]
        in r\<lparr>Messages := map (\<lambda>i. Messages r ! i) kept,
             MessageContents :=
               map (\<lambda>i. MessageContents r ! i) (filter (\<lambda>i. i < length (MessageContents r)) kept),
             CharCountHistory :=
               map (\<lambda>i. CharCountHistory r ! i) (filter (\<lambda>i. i < length (CharCountHistory r)) kept),
             LastCleanup := now\<rparr>)"

text \<open>Tier 3 of \<^verbatim>\<open>CheckMessage\<close>, the nested conditional on the message length.\<close>

definition charRateCheck :: "int \<Rightarrow> int \<Rightarrow> ChatError option" where
  "charRateCheck messageLen recentMessages =
     (if messageLen > 300 then
        (if recentMessages \<ge> 1
         then Some \<lparr>Code = ''RATE_LIMIT_LONG_MESSAGE'',
                    Message = ''Large messages limited to 1 per 10 seconds.''\<rparr>
         else None)
      else if messageLen > 100 then
        (if recentMessages \<ge> 3
         then Some \<lparr>Code = ''RATE_LIMIT_MEDIUM_MESSAGE'',
                    Message = ''Medium messages limited to 3 per 10 seconds.''\<rparr>
         else None)
      else None)"

text \<open>The escalating penalties of \<^verbatim>\<open>CheckMessage\<close>: the timeout applied and the error.\<close>

definition repeatOffender :: "int \<Rightarrow> (duration \<times> ChatError) option" where
  "repeatOffender violations =
     (if violations \<ge> 5 then
        Some (30 * Minute,
          \<lparr>Code = ''REPEAT_OFFENDER'', Message = ''Multiple violations. (30 minute timeout)''\<rparr>)
      else if violations \<ge> 4 then
        Some (10 * Minute,
          \<lparr>Code = ''REPEAT_OFFENDER'', Message = ''Multiple violations. (10 minute timeout)''\<rparr>)
      else if violations \<ge> 3 then
        Some (5 * Minute,
          \<lparr>Code = ''REPEAT_OFFENDER'', Message = ''Multiple violations. (5 minute timeout)''\<rparr>)
      else None)"

text \<open>
  The body of \<^verbatim>\<open>CheckMessage\<close> once the record is at hand. The result pairs what the
  method returns, \<^verbatim>\<open>(bool, *ChatError)\<close>, with the record as the call leaves it.
\<close>

definition checkRecord ::
  "ChatConfig \<Rightarrow> (string \<Rightarrow> string) \<Rightarrow> time \<Rightarrow> UserRateRecord \<Rightarrow> string
     \<Rightarrow> (bool \<times> ChatError option) \<times> UserRateRecord" where
  "checkRecord config normalise now record0 message =
     (if now < TimeoutUntil record0 then
        ((False, Some \<lparr>Code = ''TIMEOUT'',
            Message = ''You are timed out. Please wait before sending messages.''\<rparr>), record0)
      else
        let record = cleanup now record0;
            messageLen = int (length message)
        in
        if messageLen > MaxCharactersPerMessage config then
          ((False, Some \<lparr>Code = ''MESSAGE_TOO_LONG'',
              Message = ''Message is too long. Maximum 500 characters.''\<rparr>), record)
        else
        let recentMessages = countMessagesInWindow now record (10 * Second) in
        if recentMessages \<ge> 5 then
          ((False, Some \<lparr>Code = ''RATE_LIMIT'', Message = ''Slow down! (30 second cooldown)''\<rparr>),
           (applyTimeout now record (30 * Second))\<lparr>Violations := Violations record + 1\<rparr>)
        else
        let messagesIn30s = countMessagesInWindow now record (30 * Second) in
        if messagesIn30s \<ge> 10 then
          ((False, Some \<lparr>Code = ''SPAM_DETECTED'', Message = ''Spam detected. (2 minute timeout)''\<rparr>),
           (applyTimeout now record (2 * Minute))\<lparr>Violations := Violations record + 1\<rparr>)
        else
        let messagesIn60s = countMessagesInWindow now record (60 * Second) in
        if messagesIn60s \<ge> 20 then
          ((False, Some \<lparr>Code = ''HEAVY_SPAM'',
              Message = ''Heavy spam detected. (5 minute timeout)''\<rparr>),
           (applyTimeout now record (5 * Minute))\<lparr>Violations := Violations record + 2\<rparr>)
        else
        case charRateCheck messageLen recentMessages of
          Some e \<Rightarrow> ((False, Some e), record)
        | None \<Rightarrow>
        if isDuplicateSpam normalise record message then
          ((False, Some \<lparr>Code = ''DUPLICATE_SPAM'',
              Message = ''Stop sending the same message repeatedly. (5 minute timeout)''\<rparr>),
           (applyTimeout now record (5 * Minute))\<lparr>Violations := Violations record + 1\<rparr>)
        else
        let charsIn5Min = countCharsInWindow now record (5 * Minute) in
        if messageLen \<ge> 400 \<and> charsIn5Min > 2000 then
          ((False, Some \<lparr>Code = ''HEAVY_TEXT_SPAM'',
              Message = ''Too much text too quickly. (10 minute timeout)''\<rparr>),
           (applyTimeout now record (10 * Minute))\<lparr>Violations := Violations record + 2\<rparr>)
        else
        (case repeatOffender (Violations record) of
           Some (d, e) \<Rightarrow> ((False, Some e), applyTimeout now record d)
         | None \<Rightarrow> ((True, None), recordMessage now record message messageLen)))"

text \<open>
  \<^verbatim>\<open>CheckMessage\<close>: the record is a pointer held by the map, so the changes made to it
  are changes of the map's entry.
\<close>

definition CheckMessage ::
  "ChatConfig \<Rightarrow> (string \<Rightarrow> string) \<Rightarrow> time \<Rightarrow> userRecords \<Rightarrow> string \<Rightarrow> string
     \<Rightarrow> (bool \<times> ChatError option) \<times> userRecords" where
  "CheckMessage config normalise now rl userID message =
     (let (record, rl1) = getOrCreateRecord now rl userID;
          (res, record') = checkRecord config normalise now record message
      in (res, rl1(userID \<mapsto> record')))"

text \<open>
  \<^verbatim>\<open>performCleanup\<close> (the reaper): the order in which Go walks the map does not
  matter, each entry is kept or deleted by its own contents.
\<close>

definition performCleanup :: "time \<Rightarrow> userRecords \<Rightarrow> userRecords" where
  "performCleanup now rl =
     (\<lambda>userID.
        case rl userID of
          None \<Rightarrow> None
        | Some record \<Rightarrow>
            if length (Messages record) = 0 \<or>
               (length (Messages record) > 0 \<and> now - last (Messages record) > 30 * Minute)
            then None else Some record)"


section \<open>The WebSocket session (internal/chat/websocket.go)\<close>

text \<open>A decoded JSON value, as \<^verbatim>\<open>ReadJSON\<close> stores it in an \<^verbatim>\<open>interface{}\<close>.\<close>

datatype json = JNull | JBool bool | JNumber rat | JString string | JArray "json list"
  | JObject "(string \<times> json) list"

text \<open>
  A frame. Of the payloads \<^verbatim>\<open>Data\<close> only the one of a \<^verbatim>\<open>message\<close> frame, a chat
  message, is modelled; the other frames built here carry none.
\<close>

record WSMessage =
  ws_Type :: string
  ws_Data :: "ChatMessage option"
  ws_Error :: string
  ws_Timestamp :: time

text \<open>
  A connection; \<open>conn_Send\<close> names its channel \<^verbatim>\<open>Send\<close>. The handler state holds
  the contents of every channel, oldest frame first, next to the manager, the limiter's
  records and the registry \<^verbatim>\<open>connections\<close> (a Go map, kept as an association list).
\<close>

record Connection =
  conn_UserID :: string
  conn_Username :: string
  conn_StreamKey :: string
  conn_Send :: nat

record WSHandler =
  manager :: Manager
  rateLimiter :: userRecords
  connections :: "(string \<times> Connection) list"
  channels :: "nat \<Rightarrow> WSMessage list"

text \<open>
  The channels are made with \<^verbatim>\<open>make(chan WSMessage, 256)\<close>. Putting a frame on a
  channel that has room appends it to the channel's contents.
\<close>

definition chanCapacity :: nat where
  "chanCapacity = 256"

definition enqueue :: "nat \<Rightarrow> WSMessage \<Rightarrow> WSHandler \<Rightarrow> WSHandler" where
  "enqueue ch msg h = h\<lparr>channels := (channels h)(ch := channels h ch @ [msg])\<rparr>"

text \<open>
  \<^verbatim>\<open>c.Send <- msg\<close>: the statement waits while the channel is full; the frame is in
  the channel when the statement is passed.
\<close>

definition send :: "nat \<Rightarrow> WSMessage \<Rightarrow> WSHandler \<Rightarrow> WSHandler outcome" where
  "send ch msg h =
     (if length (channels h ch) < chanCapacity then Returns (enqueue ch msg h) else Blocks)"

text \<open>
  \<^verbatim>\<open>select { case conn.Send <- msg: default: }\<close>: the frame is dropped when the channel
  is full.
\<close>

definition trySend :: "nat \<Rightarrow> WSMessage \<Rightarrow> WSHandler \<Rightarrow> WSHandler" where
  "trySend ch msg h = (if length (channels h ch) < chanCapacity then enqueue ch msg h else h)"

fun broadcast_loop :: "string \<Rightarrow> WSMessage \<Rightarrow> (string \<times> Connection) list \<Rightarrow> WSHandler \<Rightarrow> WSHandler" where
  "broadcast_loop streamKey msg [] h = h"
| "broadcast_loop streamKey msg ((k, conn) # rest) h =
     broadcast_loop streamKey msg rest
       (if conn_StreamKey conn = streamKey then trySend (conn_Send conn) msg h else h)"

definition broadcastToRoom :: "Connection \<Rightarrow> WSMessage \<Rightarrow> WSHandler \<Rightarrow> WSHandler" where
  "broadcastToRoom c msg h = broadcast_loop (conn_StreamKey c) msg (connections h) h"

definition sendError :: "time \<Rightarrow> Connection \<Rightarrow> string \<Rightarrow> WSHandler \<Rightarrow> WSHandler outcome" where
  "sendError now c errorMsg h =
     send (conn_Send c)
       \<lparr>ws_Type = ''error'', ws_Data = None, ws_Error = errorMsg, ws_Timestamp = now\<rparr> h"

text \<open>
  \<^verbatim>\<open>handleChatMessage\<close>. \<^verbatim>\<open>rateLimitErr.Message\<close> dereferences the error returned by
  the limiter.
\<close>

definition handleChatMessage ::
  "ChatConfig \<Rightarrow> (string \<Rightarrow> string) \<Rightarrow> time \<Rightarrow> string \<Rightarrow> Connection \<Rightarrow> (string \<times> json) list
     \<Rightarrow> WSHandler \<Rightarrow> WSHandler outcome" where
  "handleChatMessage config normalise now newID c msg h =
     (if conn_UserID c = [] then sendError now c ''Not joined to chat'' h
      else
        case map_of msg ''data'' of
          Some (JObject data) \<Rightarrow>
            (case map_of data ''message'' of
               Some (JString message) \<Rightarrow>
                 if message = [] then sendError now c ''Invalid message content'' h
                 else
                   let ((allowed, rateLimitErr), rl') =
                         CheckMessage config normalise now (rateLimiter h) (conn_UserID c) message;
                       h1 = h\<lparr>rateLimiter := rl'\<rparr>
                   in if \<not> allowed then
                        (case rateLimitErr of
                           None \<Rightarrow> Panics NilDereference
                         | Some e \<Rightarrow>
                             send (conn_Send c)
                               \<lparr>ws_Type = ''rate_limit'', ws_Data = None, ws_Error = Message e,
                                ws_Timestamp = now\<rparr> h1)
                      else
                        (case Manager_AddMessage config now newID (manager h1) (conn_StreamKey c)
                                (conn_UserID c) (conn_Username c) message of
                           Blocks \<Rightarrow> Blocks
                         | Panics p \<Rightarrow> Panics p
                         | Returns (chatMsg, m') \<Rightarrow>
                             Returns (broadcastToRoom c
                               \<lparr>ws_Type = ''message'', ws_Data = Some chatMsg, ws_Error = [],
                                ws_Timestamp = now\<rparr> (h1\<lparr>manager := m'\<rparr>)))
             | _ \<Rightarrow> sendError now c ''Invalid message content'' h)
        | _ \<Rightarrow> sendError now c ''Invalid message data'' h)"

section \<open>Specification-side and auxiliary definitions\<close>

subsection \<open>The ring buffer as a list\<close>

text \<open>
  The states of a buffer of capacity \<open>C\<close> that the operations reach, and the list of
  messages such a state stands for, oldest first.
\<close>

definition cb_inv :: "int \<Rightarrow> CircularBuffer \<Rightarrow> bool" where
  "cb_inv C cb = (0 < C \<and> cb_maxSize cb = C \<and> int (length (cb_data cb)) = C \<and>
      0 \<le> cb_head cb \<and> cb_head cb < C \<and> 0 \<le> cb_size cb \<and> cb_size cb \<le> C \<and>
      cb_tail cb = (cb_head cb + cb_size cb) mod C)"

definition cb_contents :: "CircularBuffer \<Rightarrow> ChatMessage list" where
  "cb_contents cb =
     map (\<lambda>j. cb_data cb ! ((nat (cb_head cb) + j) mod nat (cb_maxSize cb))) [0..<nat (cb_size cb)]"

subsection \<open>The decision table of the rate limiter, as the specification words it\<close>







text \<open>
  The history after the lazy self-cleanup: as it is while less than a minute has passed
  since the last cleanup; otherwise the entries (instant, text, length) whose instant is
  at most five minutes old, with the cleanup noted at \<open>now\<close>.
\<close>

definition spec_lazy_cleanup :: "time \<Rightarrow> UserRateRecord \<Rightarrow> UserRateRecord" where
  "spec_lazy_cleanup now r =
     (if now - LastCleanup r < Minute then r
      else r\<lparr>Messages := filter (\<lambda>t. now - 5 * Minute < t) (Messages r),
             MessageContents :=
               map snd (filter (\<lambda>(t, c). now - 5 * Minute < t) (zip (Messages r) (MessageContents r))),
             CharCountHistory :=
               map snd (filter (\<lambda>(t, n). now - 5 * Minute < t) (zip (Messages r) (CharCountHistory r))),
             LastCleanup := now\<rparr>)"







text \<open>The denial of tier T0, and the codes of the tiers that set a timeout.\<close>

definition timeoutError :: ChatError where
  "timeoutError = \<lparr>Code = ''TIMEOUT'',
      Message = ''You are timed out. Please wait before sending messages.''\<rparr>"


subsection \<open>Runs of the rate limiter\<close>

text \<open>
  A sequence of checks, each with its instant, user and text, run one after the other
  on the limiter's records: the results in order, and the records at the end.
\<close>

fun check_seq ::
  "ChatConfig \<Rightarrow> (string \<Rightarrow> string) \<Rightarrow> userRecords \<Rightarrow> (time \<times> string \<times> string) list
     \<Rightarrow> (bool \<times> ChatError option) list \<times> userRecords" where
  "check_seq config normalise rl [] = ([], rl)"
| "check_seq config normalise rl ((now, userID, message) # cs) =
     (let (res, rl1) = CheckMessage config normalise now rl userID message;
          (rs, rl2) = check_seq config normalise rl1 cs
      in (res # rs, rl2))"

text \<open>
  A run in which passes of the reaper come between the checks: for each event, what a
  check returned (nothing for a pass of the reaper) and the records after the event.
\<close>

datatype event = Check time string string | Reap time

fun run ::
  "ChatConfig \<Rightarrow> (string \<Rightarrow> string) \<Rightarrow> userRecords \<Rightarrow> event list
     \<Rightarrow> ((bool \<times> ChatError option) option \<times> userRecords) list" where
  "run config normalise rl [] = []"
| "run config normalise rl (Check now userID message # evs) =
     (let (res, rl') = CheckMessage config normalise now rl userID message
      in (Some res, rl') # run config normalise rl' evs)"
| "run config normalise rl (Reap now # evs) =
     (let rl' = performCleanup now rl
      in (None, rl') # run config normalise rl' evs)"

definition violations_at :: "string \<Rightarrow> userRecords \<Rightarrow> int" where
  "violations_at u rl = (case rl u of None \<Rightarrow> 0 | Some r \<Rightarrow> Violations r)"

definition timeout_at :: "string \<Rightarrow> userRecords \<Rightarrow> time" where
  "timeout_at u rl = (case rl u of None \<Rightarrow> 0 | Some r \<Rightarrow> TimeoutUntil r)"

subsection \<open>Concrete inputs\<close>

text \<open>
  What \<^verbatim>\<open>strings.ToLower(strings.TrimSpace(s))\<close> computes on ASCII text: the white space
  of ASCII is trimmed at both ends and the letters \<open>A\<close> to \<open>Z\<close> are lowered. It stands
  for the normalisation in the concrete runs below, whose texts are ASCII.
\<close>

definition asciiSpace :: "char \<Rightarrow> bool" where
  "asciiSpace c =
     (c = CHR 0x09 \<or> c = CHR 0x0A \<or> c = CHR 0x0B \<or> c = CHR 0x0C \<or> c = CHR 0x0D \<or> c = CHR '' '')"

definition asciiTrimSpace :: "string \<Rightarrow> string" where
  "asciiTrimSpace s = rev (dropWhile asciiSpace (rev (dropWhile asciiSpace s)))"

definition asciiToLower :: "string \<Rightarrow> string" where
  "asciiToLower s =
     map (\<lambda>c. if (65::nat) \<le> of_char c \<and> of_char c \<le> (90::nat)
              then char_of (of_char c + (32::nat)) else c) s"

definition asciiNormalise :: "string \<Rightarrow> string" where
  "asciiNormalise s = asciiToLower (asciiTrimSpace s)"

text \<open>A message with the text \<open>s\<close> and every other field at its zero value.\<close>

definition msg_of :: "string \<Rightarrow> ChatMessage" where
  "msg_of s = zeroChatMessage\<lparr>msg_Message := s\<rparr>"

text \<open>The buffer of capacity 1 after the append of \<open>m1\<close>, and a room that owns it.\<close>

definition one_msg_buffer :: CircularBuffer where
  "one_msg_buffer = \<lparr>cb_data = [msg_of ''m1''], cb_maxSize = 1, cb_head = 0, cb_tail = 0, cb_size = 1\<rparr>"

definition full_room :: ChatRoom where
  "full_room =
     \<lparr>room_StreamKey = ''s'', room_Messages = one_msg_buffer,
      room_LastActivity = 1000 * Second, room_MessageCount = 1, room_BytesUsed = 102\<rparr>"

text \<open>
  A manager whose only room accounts for 95 bytes under a limit of 100 bytes, with the
  directory lock free.
\<close>

definition critical_manager :: Manager where
  "critical_manager =
     \<lparr>rooms = [(''s'', full_room\<lparr>room_BytesUsed := 95\<rparr>)],
      roomsMux = \<lparr>readers = 0, writer = False\<rparr>,
      memTracker = \<lparr>TotalBytes = 0, TotalMessages = 0, ActiveStreams = 0, MaxBytes = 100\<rparr>\<rparr>"

text \<open>Three messages \<^verbatim>\<open>"spam"\<close> of user \<open>u\<close>, three seconds apart.\<close>

definition spam_run :: "(time \<times> string \<times> string) list" where
  "spam_run = [(1000 * Second, ''u'', ''spam''), (1003 * Second, ''u'', ''spam''),
               (1006 * Second, ''u'', ''spam'')]"

text \<open>
  Records of user \<open>u\<close> with three violations: one with no message recorded, one with a
  message recorded at second 990; and a run of two checks around a pass of the reaper.
\<close>

definition offender :: UserRateRecord where
  "offender = \<lparr>UserID = ''u'', Messages = [], MessageContents = [], CharCountHistory = [],
                TimeoutUntil = 0, Violations = 3, LastCleanup = 900 * Second\<rparr>"

definition recent_offender :: UserRateRecord where
  "recent_offender = offender\<lparr>Messages := [990 * Second], MessageContents := [''hello''],
                               CharCountHistory := [5]\<rparr>"

definition offender_run :: "event list" where
  "offender_run = [Check (1000 * Second) ''u'' ''hi'', Reap (1100 * Second),
                   Check (1400 * Second) ''u'' ''hi again'']"





text \<open>
  Two sessions joined to the room \<open>s\<close>, Ann on channel 1 and Bob on channel 2, in a
  handler where Ann's user is timed out until second 1300; a \<^verbatim>\<open>message\<close> frame as
  decoded from the socket; and the frames on a channel once a handler call returned.
\<close>

definition alice :: Connection where
  "alice = \<lparr>conn_UserID = ''u'', conn_Username = ''Ann'', conn_StreamKey = ''s'', conn_Send = 1\<rparr>"

definition bob :: Connection where
  "bob = \<lparr>conn_UserID = ''v'', conn_Username = ''Bob'', conn_StreamKey = ''s'', conn_Send = 2\<rparr>"

definition timed_out_handler :: WSHandler where
  "timed_out_handler =
     \<lparr>manager = \<lparr>rooms = [], roomsMux = \<lparr>readers = 0, writer = False\<rparr>,
                  memTracker = \<lparr>TotalBytes = 0, TotalMessages = 0, ActiveStreams = 0,
                                MaxBytes = 104857600\<rparr>\<rparr>,
      rateLimiter = [''u'' \<mapsto> offender\<lparr>TimeoutUntil := 1300 * Second\<rparr>],
      connections = [(''u'', alice), (''v'', bob)],
      channels = (\<lambda>ch. [])\<rparr>"

definition chat_frame :: "string \<Rightarrow> (string \<times> json) list" where
  "chat_frame text = [(''type'', JString ''message''), (''data'', JObject [(''message'', JString text)])]"

definition frames_of :: "WSHandler outcome \<Rightarrow> nat \<Rightarrow> WSMessage list" where
  "frames_of out ch = (case out of Returns h \<Rightarrow> channels h ch | Panics p \<Rightarrow> [] | Blocks \<Rightarrow> [])"

section \<open>Verification\<close>

subsection \<open>The ring buffer: appends and the snapshot\<close>

lemma smod_nonneg: "0 \<le> a \<Longrightarrow> 0 < b \<Longrightarrow> (a::int) smod b = a mod b"
  by (simp add: smod_int_alt_def sgn_if)

lemma GetAll_loop_inv:
  assumes "0 < cb_maxSize cb" "int (length (cb_data cb)) = cb_maxSize cb" "0 \<le> cb_head cb" "0 \<le> i"
  shows "GetAll_loop cb i n =
     Inr (map (\<lambda>j. cb_data cb ! ((nat (cb_head cb) + j) mod nat (cb_maxSize cb))) [nat i..<nat i + n])"
  using assms
proof (induction n arbitrary: i)
  case 0
  then show ?case by simp
next
  case (Suc n)
  have idx: "(cb_head cb + i) smod cb_maxSize cb = (cb_head cb + i) mod cb_maxSize cb"
    using Suc.prems by (simp add: smod_nonneg)
  have rng: "0 \<le> (cb_head cb + i) mod cb_maxSize cb" "(cb_head cb + i) mod cb_maxSize cb < cb_maxSize cb"
    using Suc.prems by simp_all
  have natidx: "nat ((cb_head cb + i) mod cb_maxSize cb) = (nat (cb_head cb) + nat i) mod nat (cb_maxSize cb)"
    using Suc.prems by (simp add: nat_mod_distrib nat_add_distrib)
  have IH: "GetAll_loop cb (i + 1) n =
     Inr (map (\<lambda>j. cb_data cb ! ((nat (cb_head cb) + j) mod nat (cb_maxSize cb))) [nat (i+1)..<nat (i+1) + n])"
    using Suc.IH[of "i+1"] Suc.prems by simp
  have ni: "nat (i + 1) = Suc (nat i)" using Suc.prems by simp
  show ?case
    using Suc.prems rng
    by (simp add: idx IH natidx ni Let_def upt_conv_Cons del: upt_Suc)
qed

lemma GetAll_contents: "cb_inv C cb \<Longrightarrow> GetAll cb = Inr (cb_contents cb)"
  unfolding GetAll_def cb_contents_def cb_inv_def
  by (auto simp: GetAll_loop_inv)

lemma Add_inv:
  assumes "cb_inv C cb"
  shows "\<exists>cb'. Add cb m = Inr cb' \<and> cb_inv C cb' \<and>
           cb_size cb' = (if cb_size cb < C then cb_size cb + 1 else C)"
proof -
  from assms have C: "0 < C" and ms: "cb_maxSize cb = C" and len: "int (length (cb_data cb)) = C"
    and h: "0 \<le> cb_head cb" "cb_head cb < C" and s: "0 \<le> cb_size cb" "cb_size cb \<le> C"
    and t: "cb_tail cb = (cb_head cb + cb_size cb) mod C"
    by (simp_all add: cb_inv_def)
  have t0: "0 \<le> cb_tail cb" "cb_tail cb < C" using t C by simp_all
  have t1: "(cb_tail cb + 1) smod C = (cb_head cb + cb_size cb + 1) mod C"
    using t0 C by (simp add: smod_nonneg t mod_simps)
  have h1: "(cb_head cb + 1) smod C = (cb_head cb + 1) mod C"
    using h C by (simp add: smod_nonneg)
  show ?thesis
  proof (cases "cb_size cb < C")
    case True
    then show ?thesis
      using C ms len h s t0 t1
      by (simp add: Add_def Let_def cb_inv_def add.assoc)
  next
    case False
    then have sC: "cb_size cb = C" using s by simp
    have "cb_head cb + C + 1 = (cb_head cb + 1) + C" by simp
    then have "(cb_head cb + C + 1) mod C = ((cb_head cb + 1) mod C + C) mod C"
      by (simp only: mod_add_self2 mod_mod_trivial)
    then show ?thesis
      using C ms len h s t0 t1 h1 sC
      by (simp add: Add_def Let_def cb_inv_def)
  qed
qed

lemma mod_inj_le:
  assumes "(h + j) mod c = (h + k) mod (c::nat)" "j \<le> k" "k < c"
  shows "j = k"
proof -
  have "c dvd (h + k) - (h + j)"
    using assms(1)[symmetric] assms(2) by (simp add: mod_eq_dvd_iff_nat)
  then have "c dvd k - j" by simp
  moreover have "k - j < c" using assms by simp
  ultimately have "k - j = 0" using dvd_imp_le by (metis dvd_pos_nat gr0I not_less)
  then show ?thesis using assms by simp
qed

lemma mod_inj_window:
  assumes "(h + j) mod c = (h + k) mod (c::nat)" "j < c" "k < c"
  shows "j = k"
proof (cases "j \<le> k")
  case True
  then show ?thesis using mod_inj_le[OF assms(1) True assms(3)] by simp
next
  case False
  then have "k \<le> j" by simp
  then show ?thesis using mod_inj_le[OF assms(1)[symmetric] _ assms(2)] by simp
qed

lemma Add_contents:
  assumes "cb_inv C cb" "Add cb m = Inr cb'"
  shows "cb_contents cb' =
           (if cb_size cb < C then cb_contents cb @ [m] else tl (cb_contents cb) @ [m])"
proof -
  from assms(1) have C: "0 < C" and ms: "cb_maxSize cb = C" and len: "int (length (cb_data cb)) = C"
    and h: "0 \<le> cb_head cb" "cb_head cb < C" and s: "0 \<le> cb_size cb" "cb_size cb \<le> C"
    and t: "cb_tail cb = (cb_head cb + cb_size cb) mod C"
    by (simp_all add: cb_inv_def)
  define c where "c = nat C"
  define hh where "hh = nat (cb_head cb)"
  define ss where "ss = nat (cb_size cb)"
  have c0: "0 < c" and lenc: "length (cb_data cb) = c" and hc: "hh < c" and sc: "ss \<le> c"
    using C len h s by (auto simp: c_def hh_def ss_def)
  have t0: "0 \<le> cb_tail cb" "cb_tail cb < C" using t C by simp_all
  have nt: "nat (cb_tail cb) = (hh + ss) mod c"
    using h s C by (simp add: t nat_mod_distrib nat_add_distrib c_def hh_def ss_def)
  show ?thesis
  proof (cases "cb_size cb < C")
    case True
    then have sslt: "ss < c" using s C by (simp add: ss_def c_def)
    have cb': "cb' = cb\<lparr>cb_data := (cb_data cb)[nat (cb_tail cb) := m],
                  cb_tail := (cb_tail cb + 1) smod C, cb_size := cb_size cb + 1\<rparr>"
      using assms(2) True C ms len t0 by (simp add: Add_def Let_def)
    have nss: "nat (cb_size cb + 1) = Suc ss" using s by (simp add: ss_def)
    have old: "(cb_data cb)[(hh + ss) mod c := m] ! ((hh + j) mod c) = cb_data cb ! ((hh + j) mod c)"
      if "j < ss" for j
    proof -
      have "(hh + ss) mod c \<noteq> (hh + j) mod c"
        using mod_inj_window[of hh ss c j] that sslt by auto
      then show ?thesis by simp
    qed
    have new: "(cb_data cb)[(hh + ss) mod c := m] ! ((hh + ss) mod c) = m"
      using lenc c0 by simp
    show ?thesis
      using True
      by (simp add: cb' cb_contents_def ms nss nt new old
           flip: c_def hh_def ss_def)
  next
    case False
    then have sC: "cb_size cb = C" using s by simp
    then have ssc: "ss = c" by (simp add: ss_def c_def)
    have nth: "nat (cb_tail cb) = hh" using nt ssc hc by simp
    have cb': "cb' = cb\<lparr>cb_data := (cb_data cb)[nat (cb_tail cb) := m],
                  cb_tail := (cb_tail cb + 1) smod C, cb_head := (cb_head cb + 1) smod C\<rparr>"
      using assms(2) False C ms len t0 by (simp add: Add_def Let_def)
    have nh: "nat ((cb_head cb + 1) smod C) = Suc hh mod c"
      using h C by (simp add: smod_nonneg nat_mod_distrib nat_add_distrib c_def hh_def)
    have idx: "(Suc hh mod c + j) mod c = (hh + Suc j) mod c" for j
      by (simp add: mod_simps)
    have "map (\<lambda>j. (cb_data cb)[hh := m] ! ((hh + Suc j) mod c)) [0..<c] =
          tl (map (\<lambda>j. cb_data cb ! ((hh + j) mod c)) [0..<c]) @ [m]"
    proof (rule nth_equalityI)
      show "length (map (\<lambda>j. (cb_data cb)[hh := m] ! ((hh + Suc j) mod c)) [0..<c]) =
            length (tl (map (\<lambda>j. cb_data cb ! ((hh + j) mod c)) [0..<c]) @ [m])"
        using c0 by simp
    next
      fix i assume "i < length (map (\<lambda>j. (cb_data cb)[hh := m] ! ((hh + Suc j) mod c)) [0..<c])"
      then have ic: "i < c" by simp
      show "map (\<lambda>j. (cb_data cb)[hh := m] ! ((hh + Suc j) mod c)) [0..<c] ! i =
            (tl (map (\<lambda>j. cb_data cb ! ((hh + j) mod c)) [0..<c]) @ [m]) ! i"
      proof (cases "Suc i < c")
        case True
        have "(hh + Suc i) mod c \<noteq> (hh + 0) mod c"
          using mod_inj_window[of hh "Suc i" c 0] True c0 by auto
        then have ne: "(hh + Suc i) mod c \<noteq> hh" using hc by simp
        show ?thesis
          using True ic ne by (simp add: nth_append nth_tl)
      next
        case False
        then have i: "Suc i = c" using ic by simp
        have "(hh + Suc i) mod c = hh" using i hc by simp
        then have "(cb_data cb)[hh := m] ! ((hh + Suc i) mod c) = m"
          using hc lenc by simp
        then show ?thesis
          using i ic by (simp add: nth_append del: add_Suc_right)
      qed
    qed
    then show ?thesis
      using False
      by (simp add: cb' cb_contents_def ms nth nh idx sC flip: c_def hh_def)
  qed
qed

lemma length_cb_contents: "length (cb_contents cb) = nat (cb_size cb)"
  by (simp add: cb_contents_def)

lemma Add_all_contents:
  assumes "cb_inv C cb"
  shows "\<exists>cb'. Add_all cb ms = Inr cb' \<and> cb_inv C cb' \<and>
           cb_contents cb' = drop (length (cb_contents cb @ ms) - nat C) (cb_contents cb @ ms)"
  using assms
proof (induction ms arbitrary: cb)
  case Nil
  then have "length (cb_contents cb) \<le> nat C"
    by (auto simp: length_cb_contents cb_inv_def)
  with Nil show ?case by simp
next
  case (Cons m ms)
  from Add_inv[OF Cons.prems, of m] obtain cb1 where
    a: "Add cb m = Inr cb1" and i1: "cb_inv C cb1" by blast
  from Cons.IH[OF i1] obtain cb' where
    r: "Add_all cb1 ms = Inr cb'" and i': "cb_inv C cb'" and
    c': "cb_contents cb' = drop (length (cb_contents cb1 @ ms) - nat C) (cb_contents cb1 @ ms)"
    by blast
  have c1: "cb_contents cb1 =
      (if cb_size cb < C then cb_contents cb @ [m] else tl (cb_contents cb) @ [m])"
    by (rule Add_contents[OF Cons.prems a])
  have "drop (length (cb_contents cb1 @ ms) - nat C) (cb_contents cb1 @ ms) =
        drop (length (cb_contents cb @ m # ms) - nat C) (cb_contents cb @ m # ms)"
  proof (cases "cb_size cb < C")
    case True
    then show ?thesis by (simp add: c1)
  next
    case False
    then have len: "length (cb_contents cb) = nat C" and pos: "0 < nat C"
      using Cons.prems by (simp_all add: length_cb_contents cb_inv_def)
    then obtain x xs where xs: "cb_contents cb = x # xs"
      by (cases "cb_contents cb") auto
    with len have lx: "Suc (length xs) = nat C" by simp
    show ?thesis
      using False lx by (simp add: c1 xs Suc_diff_le flip: lx)
  qed
  with a r i' c' show ?case by simp
qed

lemma New_inv:
  assumes "1 \<le> C"
  shows "\<exists>cb0. NewCircularBuffer C = Inr cb0 \<and> cb_inv C cb0 \<and> cb_contents cb0 = []"
  using assms by (simp add: NewCircularBuffer_def cb_inv_def cb_contents_def)

text \<open>
  Claim C2. A buffer of capacity \<open>C \<ge> 1\<close> is created and the messages \<open>msgs\<close> are
  appended one after the other (for any list, hence after every append of a longer run):
  no append panics, the size stays between \<open>0\<close> and \<open>C\<close>, it is the smaller of the
  number of appends and \<open>C\<close>, and the snapshot \<^verbatim>\<open>GetAll\<close> is the list of the last \<open>C\<close>
  messages appended, oldest first (all of them while fewer than \<open>C\<close> were appended).
\<close>

theorem ring_buffer_keeps_last_C:
  assumes "1 \<le> C"
  shows "\<exists>cb0 cb. NewCircularBuffer C = Inr cb0 \<and> Add_all cb0 msgs = Inr cb \<and>
           0 \<le> cb_size cb \<and> cb_size cb \<le> C \<and>
           cb_size cb = min (int (length msgs)) C \<and>
           GetAll cb = Inr (drop (length msgs - nat C) msgs)"
proof -
  from New_inv[OF assms] obtain cb0 where
    n: "NewCircularBuffer C = Inr cb0" and i0: "cb_inv C cb0" and c0: "cb_contents cb0 = []"
    by blast
  from Add_all_contents[OF i0, of msgs] obtain cb where
    r: "Add_all cb0 msgs = Inr cb" and i: "cb_inv C cb" and
    c: "cb_contents cb = drop (length msgs - nat C) msgs"
    by (auto simp: c0)
  have g: "GetAll cb = Inr (drop (length msgs - nat C) msgs)"
    using GetAll_contents[OF i] c by simp
  have "nat (cb_size cb) = length (drop (length msgs - nat C) msgs)"
    using c length_cb_contents[of cb] by simp
  then have s: "cb_size cb = min (int (length msgs)) C"
    using i assms by (auto simp: cb_inv_def)
  show ?thesis using n r i g s by (auto simp: cb_inv_def)
qed

text \<open>Capacity 2 and three appends: the snapshot holds the second and the third message.\<close>

theorem ring_buffer_keeps_last_C_witness:
  "(1::int) \<le> 2 \<and>
   (\<exists>cb0 cb. NewCircularBuffer 2 = Inr cb0 \<and>
      Add_all cb0 [msg_of ''m1'', msg_of ''m2'', msg_of ''m3''] = Inr cb \<and>
      cb_size cb = 2 \<and> GetAll cb = Inr [msg_of ''m2'', msg_of ''m3''])"
  using ring_buffer_keeps_last_C[of 2 "[msg_of ''m1'', msg_of ''m2'', msg_of ''m3'']"]
  by simp blast

subsection \<open>The ring buffer: the most recent messages\<close>

lemma GetRecent_loop_start0: "GetRecent_loop cb 0 i n = GetAll_loop cb i n"
  by (induction n arbitrary: i) (simp_all add: Let_def)

lemma GetRecent_all_any_state: "cb_size cb \<le> n \<Longrightarrow> GetRecent cb n = GetAll cb"
  by (auto simp: GetRecent_def GetAll_def GetRecent_loop_start0 Let_def)

text \<open>
  The parts of claim C8 that the code satisfies: in a buffer whose size is not
  negative, \<^verbatim>\<open>GetRecent(0)\<close> returns the empty list; on an empty buffer \<^verbatim>\<open>GetRecent(n)\<close>
  returns the empty list for every \<open>n\<close>; and \<^verbatim>\<open>GetRecent(n)\<close> with \<open>n\<close> at least the size
  returns what the snapshot \<^verbatim>\<open>GetAll\<close> returns.
\<close>

lemma GetRecent_zero_and_all:
  assumes "0 \<le> cb_size cb"
  shows "GetRecent cb 0 = Inr [] \<and>
         (cb_size cb = 0 \<longrightarrow> GetRecent cb n = Inr []) \<and>
         (cb_size cb \<le> n \<longrightarrow> GetRecent cb n = GetAll cb)"
  using assms by (auto simp: GetRecent_def GetAll_def GetRecent_loop_start0 Let_def)

lemma GetRecent_one_msg_buffer:
  "GetRecent one_msg_buffer 0 = Inr [] \<and>
   GetRecent one_msg_buffer 1 = Inr [msg_of ''m1''] \<and> GetAll one_msg_buffer = Inr [msg_of ''m1'']"
  by (simp add: GetRecent_def one_msg_buffer_def GetAll_def smod_int_alt_def)


subsection \<open>Rooms: appending to a full buffer\<close>

lemma full_room_reached:
  "NewChatRoom (1000 * Second) ''s'' 1 =
     Inr \<lparr>room_StreamKey = ''s'',
          room_Messages = \<lparr>cb_data = [zeroChatMessage], cb_maxSize = 1, cb_head = 0, cb_tail = 0,
                            cb_size = 0\<rparr>,
          room_LastActivity = 1000 * Second, room_MessageCount = 0, room_BytesUsed = 0\<rparr> \<and>
   AddMessage (1000 * Second)
     \<lparr>room_StreamKey = ''s'',
      room_Messages = \<lparr>cb_data = [zeroChatMessage], cb_maxSize = 1, cb_head = 0, cb_tail = 0,
                        cb_size = 0\<rparr>,
      room_LastActivity = 1000 * Second, room_MessageCount = 0, room_BytesUsed = 0\<rparr>
     (msg_of ''m1'') = Inr full_room"
  by (simp add: NewChatRoom_def NewCircularBuffer_def AddMessage_def Add_def Let_def msgSize_def
      msg_of_def zeroChatMessage_def full_room_def one_msg_buffer_def smod_int_alt_def)

lemma AddMessage_full_room:
  assumes "cb_inv C (room_Messages cr)" "cb_size (room_Messages cr) = C"
  shows "\<exists>cr'. AddMessage now cr msg = Inr cr' \<and>
           GetAll (room_Messages cr') = Inr (tl (cb_contents (room_Messages cr)) @ [msg]) \<and>
           room_BytesUsed cr' = room_BytesUsed cr + msgSize msg"
proof -
  from Add_inv[OF assms(1), of msg] obtain cb' where
    a: "Add (room_Messages cr) msg = Inr cb'" and i: "cb_inv C cb'" by blast
  have "cb_contents cb' = tl (cb_contents (room_Messages cr)) @ [msg]"
    using Add_contents[OF assms(1) a] assms(2) by simp
  then have "GetAll cb' = Inr (tl (cb_contents (room_Messages cr)) @ [msg])"
    using GetAll_contents[OF i] by simp
  then show ?thesis by (simp add: AddMessage_def a)
qed

text \<open>
  Claim C3, the code at the failing input. The room's buffer, of capacity 1, is full
  with the message \<open>m1\<close>, and bytes-used is 102. Appending \<open>m2\<close> succeeds, evicts \<open>m1\<close>
  and adds the estimate of \<open>m2\<close>, 102 bytes: bytes-used becomes 204, nothing is
  deducted for the message evicted.
\<close>

theorem AddMessage_full_no_decrement:
  "cb_size (room_Messages full_room) = cb_maxSize (room_Messages full_room) \<and>
   GetAll (room_Messages full_room) = Inr [msg_of ''m1''] \<and>
   AddMessage (1015 * Second) full_room (msg_of ''m2'') =
     Inr (full_room\<lparr>room_Messages := one_msg_buffer\<lparr>cb_data := [msg_of ''m2'']\<rparr>,
                     room_LastActivity := 1015 * Second, room_MessageCount := 2,
                     room_BytesUsed := 204\<rparr>) \<and>
   GetAll (one_msg_buffer\<lparr>cb_data := [msg_of ''m2'']\<rparr>) = Inr [msg_of ''m2'']"
  by (simp add: AddMessage_def Add_def Let_def msgSize_def GetAll_def
      msg_of_def zeroChatMessage_def full_room_def one_msg_buffer_def smod_int_alt_def)

subsection \<open>The memory monitor and the directory lock\<close>

lemma updateMemoryStats_critical_blocks:
  assumes "IsCritical
     (Update (memTracker m) (sum_list (map (\<lambda>(k, room). room_BytesUsed room) (rooms m)))
        (sum_list (map (\<lambda>(k, room). room_MessageCount room) (rooms m))) (int (length (rooms m))))"
  shows "updateMemoryStats now m = Blocks"
proof (cases "RLock (roomsMux m)")
  case None
  then show ?thesis by (simp add: updateMemoryStats_def)
next
  case (Some mu)
  then have "0 < readers mu" by (auto simp: RLock_def split: if_splits)
  then have "Lock mu = None" by (simp add: Lock_def)
  then show ?thesis
    using Some assms by (simp add: updateMemoryStats_def performEmergencyCleanup_def Let_def)
qed

lemma performEmergencyCleanup_unlocked:
  "performEmergencyCleanup (2000 * Second) critical_manager =
     Returns (critical_manager\<lparr>rooms :=
       [(''s'', full_room\<lparr>room_Messages := one_msg_buffer\<lparr>cb_size := 0\<rparr>, room_BytesUsed := 0\<rparr>)]\<rparr>)"
proof -
  have l2: "RemoveOlderThan_loop (1400 * Second) (one_msg_buffer\<lparr>cb_size := 0\<rparr>) 1 =
              Inr (one_msg_buffer\<lparr>cb_size := 0\<rparr>, 1)"
    by (subst RemoveOlderThan_loop.simps) simp
  have l1: "RemoveOlderThan_loop (1400 * Second) one_msg_buffer 0 =
              Inr (one_msg_buffer\<lparr>cb_size := 0\<rparr>, 1)"
    by (subst RemoveOlderThan_loop.simps)
       (simp add: l2[unfolded one_msg_buffer_def] one_msg_buffer_def msg_of_def zeroChatMessage_def
          Second_def smod_int_alt_def)
  have "RemoveOlderThan (2000 * Second) one_msg_buffer (10 * Minute) =
          Inr (one_msg_buffer\<lparr>cb_size := 0\<rparr>, 1)"
    using l1 by (simp add: RemoveOlderThan_def one_msg_buffer_def Minute_def Second_def)
  then show ?thesis
    by (simp add: performEmergencyCleanup_def critical_manager_def Lock_def Unlock_def
        CleanupOldMessages_def full_room_def Let_def)
qed

text \<open>
  Claim C9, the code at the failing input. The directory lock is free, the one room
  accounts for 95 bytes and the tracker's limit is 100 bytes: usage is critical. The
  monitor tick takes the read lock and calls the emergency cleanup while holding it;
  the cleanup asks for the write lock of the same mutex and waits for ever: the tick
  does not return and no message is evicted.
\<close>

theorem updateMemoryStats_critical_deadlock:
  "updateMemoryStats (2000 * Second) critical_manager = Blocks"
  by (simp add: updateMemoryStats_def performEmergencyCleanup_def critical_manager_def
      RLock_def Lock_def Update_def IsCritical_def usageAbove_def full_room_def Let_def)

subsection \<open>The rate limiter: the tiers of the check\<close>






lemma charRateCheck_spec:
  "charRateCheck l n =
     (if l > 300 \<and> n \<ge> 1 then Some \<lparr>Code = ''RATE_LIMIT_LONG_MESSAGE'',
                    Message = ''Large messages limited to 1 per 10 seconds.''\<rparr>
      else if l > 100 \<and> n \<ge> 3 then Some \<lparr>Code = ''RATE_LIMIT_MEDIUM_MESSAGE'',
                    Message = ''Medium messages limited to 3 per 10 seconds.''\<rparr>
      else None)"
  by (simp add: charRateCheck_def)



lemma cleanup_fields [simp]:
  "TimeoutUntil (cleanup now r) = TimeoutUntil r" "Violations (cleanup now r) = Violations r"
  by (simp_all add: cleanup_def Let_def)










lemma spec_lazy_cleanup_fields [simp]:
  "TimeoutUntil (spec_lazy_cleanup now r) = TimeoutUntil r"
  "Violations (spec_lazy_cleanup now r) = Violations r"
  "UserID (spec_lazy_cleanup now r) = UserID r"
  by (simp_all add: spec_lazy_cleanup_def)




subsection \<open>The rate limiter: repeated messages\<close>

lemma countMessagesInWindow_le: "countMessagesInWindow now r w \<le> int (length (Messages r))"
  by (simp add: countMessagesInWindow_def)

lemma checkRecord_allow_few:
  assumes "TimeoutUntil r \<le> now" "now - LastCleanup r < Minute"
    and "length (Messages r) < 3" "length (MessageContents r) < 3"
    and "int (length message) \<le> 100" "int (length message) \<le> MaxCharactersPerMessage config"
    and "Violations r < 3"
  shows "checkRecord config normalise now r message =
           ((True, None), recordMessage now r message (int (length message)))"
proof -
  have c: "cleanup now r = r" using assms(2) by (simp add: cleanup_def)
  have n: "countMessagesInWindow now r w < 3" for w
    using countMessagesInWindow_le[of now r w] assms(3) by simp
  have n5: "\<not> 5 \<le> countMessagesInWindow now r w" "\<not> 10 \<le> countMessagesInWindow now r w"
     "\<not> 20 \<le> countMessagesInWindow now r w" for w
    using n[of w] by simp_all
  have d: "\<not> isDuplicateSpam normalise r message"
    using assms(4) by (simp add: isDuplicateSpam_def)
  have ch: "charRateCheck (int (length message)) k = None" for k
    using assms(5) by (simp add: charRateCheck_def)
  have ro: "repeatOffender (Violations r) = None"
    using assms(7) by (simp add: repeatOffender_def)
  show ?thesis
    using assms(1,5,6) by (simp add: checkRecord_def c n5 d ch ro Let_def)
qed

lemma checkRecord_duplicate:
  assumes "TimeoutUntil r \<le> now" "now - LastCleanup r < Minute"
    and "length (Messages r) < 5" "MessageContents r = [message, message, message]"
    and "int (length message) \<le> 100" "int (length message) \<le> MaxCharactersPerMessage config"
  shows "checkRecord config normalise now r message =
           ((False, Some \<lparr>Code = ''DUPLICATE_SPAM'',
              Message = ''Stop sending the same message repeatedly. (5 minute timeout)''\<rparr>),
            r\<lparr>TimeoutUntil := now + 5 * Minute, Violations := Violations r + 1\<rparr>)"
proof -
  have c: "cleanup now r = r" using assms(2) by (simp add: cleanup_def)
  have n: "countMessagesInWindow now r w < 5" for w
    using countMessagesInWindow_le[of now r w] assms(3) by simp
  have n5: "\<not> 5 \<le> countMessagesInWindow now r w" "\<not> 10 \<le> countMessagesInWindow now r w"
     "\<not> 20 \<le> countMessagesInWindow now r w" for w
    using n[of w] by simp_all
  have d: "isDuplicateSpam normalise r message"
    using assms(4) by (simp add: isDuplicateSpam_def)
  have ch: "charRateCheck (int (length message)) k = None" for k
    using assms(5) by (simp add: charRateCheck_def)
  show ?thesis
    using assms(1,5,6) by (simp add: checkRecord_def c n5 d ch Let_def applyTimeout_def)
qed

text \<open>
  Claim C4 as stated fails: of three messages \<^verbatim>\<open>"spam"\<close> sent three seconds apart by a
  user without a record, the third is allowed as well.
\<close>

theorem duplicate_spam_third_message_counterexample:
  "fst (check_seq DefaultConfig asciiNormalise Map.empty spam_run) =
     [(True, None), (True, None), (True, None)]"
  by (simp add: spam_run_def CheckMessage_def getOrCreateRecord_def checkRecord_def Let_def
      cleanup_def countMessagesInWindow_def countCharsInWindow_def charRateCheck_def
      isDuplicateSpam_def repeatOffender_def recordMessage_def DefaultConfig_def
      Minute_def Second_def)

text \<open>
  Claim C4, as amended. A user without a record sends \<^verbatim>\<open>"spam"\<close> four times within one
  minute, more than two seconds apart: the first three checks allow the message, the
  fourth is denied with \<^verbatim>\<open>DUPLICATE_SPAM\<close> and sets the timeout to five minutes after it.
\<close>

theorem duplicate_spam_fourth_message:
  assumes "rl u = None" "0 \<le> t1" "t1 + 2 * Second < t2" "t2 + 2 * Second < t3"
    "t3 + 2 * Second < t4" "t4 - t1 < Minute" "4 \<le> MaxCharactersPerMessage config"
  shows "\<exists>rl' r'. check_seq config normalise rl
            [(t1, u, ''spam''), (t2, u, ''spam''), (t3, u, ''spam''), (t4, u, ''spam'')] =
           ([(True, None), (True, None), (True, None),
             (False, Some \<lparr>Code = ''DUPLICATE_SPAM'',
                Message = ''Stop sending the same message repeatedly. (5 minute timeout)''\<rparr>)], rl')
         \<and> rl' u = Some r' \<and> TimeoutUntil r' = t4 + 5 * Minute"
proof -
  define r0 where "r0 = \<lparr>UserID = u, Messages = [], MessageContents = [],
                         CharCountHistory = [], TimeoutUntil = 0, Violations = 0,
                         LastCleanup = t1\<rparr>"
  define r1 where "r1 = recordMessage t1 r0 ''spam'' 4"
  define r2 where "r2 = recordMessage t2 r1 ''spam'' 4"
  define r3 where "r3 = recordMessage t3 r2 ''spam'' 4"
  define r4 where "r4 = r3\<lparr>TimeoutUntil := t4 + 5 * Minute, Violations := Violations r3 + 1\<rparr>"
  have S: "0 < Second" by (simp add: Second_def)
  have s1: "checkRecord config normalise t1 r0 ''spam'' = ((True, None), r1)"
    using assms S checkRecord_allow_few[of r0 t1 "''spam''" config normalise]
    by (simp add: r0_def r1_def Minute_def)
  have s2: "checkRecord config normalise t2 r1 ''spam'' = ((True, None), r2)"
    using assms S checkRecord_allow_few[of r1 t2 "''spam''" config normalise]
    by (simp add: r0_def r1_def r2_def recordMessage_def)
  have s3: "checkRecord config normalise t3 r2 ''spam'' = ((True, None), r3)"
    using assms S checkRecord_allow_few[of r2 t3 "''spam''" config normalise]
    by (simp add: r0_def r1_def r2_def r3_def recordMessage_def)
  have s4: "checkRecord config normalise t4 r3 ''spam'' =
      ((False, Some \<lparr>Code = ''DUPLICATE_SPAM'',
              Message = ''Stop sending the same message repeatedly. (5 minute timeout)''\<rparr>), r4)"
    using assms S checkRecord_duplicate[of r3 t4 "''spam''" config normalise]
    by (simp add: r0_def r1_def r2_def r3_def r4_def recordMessage_def)
  show ?thesis
    using assms(1) s1 s2 s3 s4
    by (simp add: CheckMessage_def getOrCreateRecord_def Let_def r4_def flip: r0_def)
qed

text \<open>Four messages three seconds apart, with the default configuration.\<close>

theorem duplicate_spam_fourth_message_witness:
  "fst (check_seq DefaultConfig asciiNormalise Map.empty
          [(1000 * Second, ''u'', ''spam''), (1003 * Second, ''u'', ''spam''),
           (1006 * Second, ''u'', ''spam''), (1009 * Second, ''u'', ''spam'')]) =
     [(True, None), (True, None), (True, None),
      (False, Some \<lparr>Code = ''DUPLICATE_SPAM'',
         Message = ''Stop sending the same message repeatedly. (5 minute timeout)''\<rparr>)]"
  using duplicate_spam_fourth_message[of Map.empty "''u''" "1000 * Second" "1003 * Second"
      "1006 * Second" "1009 * Second" DefaultConfig asciiNormalise]
  by (auto simp: DefaultConfig_def Minute_def Second_def)

subsection \<open>The rate limiter: the reaper\<close>


lemma performCleanup_keeps: "performCleanup now rl u = Some r' \<Longrightarrow> rl u = Some r'"
  by (auto simp: performCleanup_def split: option.splits if_splits)




subsection \<open>The rate limiter: a timeout lasts until it expires\<close>

lemma CheckMessage_other:
  "v \<noteq> u \<Longrightarrow> snd (CheckMessage config normalise now rl v m) u = rl u"
  by (auto simp: CheckMessage_def getOrCreateRecord_def Let_def split: option.splits prod.splits)

lemma CheckMessage_existing:
  "rl u = Some r \<Longrightarrow>
   CheckMessage config normalise now rl u m =
     (fst (checkRecord config normalise now r m), rl(u \<mapsto> snd (checkRecord config normalise now r m)))"
  by (simp add: CheckMessage_def getOrCreateRecord_def Let_def split: prod.splits)







subsection \<open>The rate limiter: violations over time\<close>

text \<open>
  Once the reaper has deleted a record, the user starts afresh: the offender without a
  recorded message is denied at second 1000 with a timeout until second 1300, the pass
  of the reaper at second 1100 deletes the record, and the message at second 1200 is
  allowed.
\<close>

lemma reaper_resets_offender:
  "map (map_option fst \<circ> fst)
     (run DefaultConfig asciiNormalise [''u'' \<mapsto> offender]
        [Check (1000 * Second) ''u'' ''hi'', Reap (1100 * Second), Check (1200 * Second) ''u'' ''hi'']) =
     [Some False, None, Some True]"
proof -
  define r1 where "r1 = offender\<lparr>TimeoutUntil := 1300 * Second, LastCleanup := 1000 * Second\<rparr>"
  have c1: "CheckMessage DefaultConfig asciiNormalise (1000 * Second) [''u'' \<mapsto> offender] ''u'' ''hi'' =
      ((False, Some \<lparr>Code = ''REPEAT_OFFENDER'', Message = ''Multiple violations. (5 minute timeout)''\<rparr>),
       [''u'' \<mapsto> r1])"
    by (simp add: CheckMessage_def getOrCreateRecord_def checkRecord_def Let_def
      cleanup_def countMessagesInWindow_def countCharsInWindow_def charRateCheck_def
      isDuplicateSpam_def repeatOffender_def applyTimeout_def DefaultConfig_def offender_def
      r1_def Minute_def Second_def)
  have c2: "performCleanup (1100 * Second) [''u'' \<mapsto> r1] = Map.empty"
    by (auto simp: performCleanup_def r1_def offender_def)
  have c3: "fst (CheckMessage DefaultConfig asciiNormalise (1200 * Second) Map.empty ''u'' ''hi'') =
      (True, None)"
    by (simp add: CheckMessage_def getOrCreateRecord_def checkRecord_def Let_def
      cleanup_def countMessagesInWindow_def countCharsInWindow_def charRateCheck_def
      isDuplicateSpam_def repeatOffender_def DefaultConfig_def Minute_def Second_def)
  obtain rl3 where "CheckMessage DefaultConfig asciiNormalise (1200 * Second) Map.empty ''u'' ''hi'' =
      ((True, None), rl3)"
    using c3 by (cases "CheckMessage DefaultConfig asciiNormalise (1200 * Second) Map.empty ''u'' ''hi''") auto
  then show ?thesis
    by (simp add: c1 c2 Let_def)
qed

lemma checkRecord_violations_mono:
  "Violations r \<le> Violations (snd (checkRecord config normalise now r m))"
  by (auto simp: checkRecord_def Let_def applyTimeout_def recordMessage_def
      split: option.splits prod.splits)

lemma checkRecord_offender_denied:
  assumes "3 \<le> Violations r"
  shows "\<exists>e. fst (checkRecord config normalise now r m) = (False, Some e) \<and>
           (Code e = ''REPEAT_OFFENDER'' \<longrightarrow>
              TimeoutUntil (snd (checkRecord config normalise now r m))
                \<in> {now + 5 * Minute, now + 10 * Minute, now + 30 * Minute})"
proof -
  have "\<exists>d e. repeatOffender (Violations (cleanup now r)) = Some (d, e) \<and>
            d \<in> {5 * Minute, 10 * Minute, 30 * Minute}"
    using assms by (simp add: repeatOffender_def)
  then obtain d e where ro: "repeatOffender (Violations (cleanup now r)) = Some (d, e)"
    and d: "d \<in> {5 * Minute, 10 * Minute, 30 * Minute}"
    by blast
  show ?thesis
    using ro d
    by (auto simp: checkRecord_def Let_def applyTimeout_def charRateCheck_spec)
qed

lemma CheckMessage_violations_mono:
  assumes "rl u = Some r"
  shows "\<exists>r'. snd (CheckMessage config normalise now rl v m) u = Some r' \<and>
           Violations r \<le> Violations r'"
proof (cases "v = u")
  case True
  show ?thesis
    using CheckMessage_existing[where rl=rl and u=u and r=r, OF assms] True
      checkRecord_violations_mono[of r config normalise now m]
    by simp
next
  case False
  then show ?thesis
    using CheckMessage_other[of v u config normalise now rl m] assms by simp
qed

lemma run_violations:
  assumes "rl u = Some r" "\<forall>(out, s) \<in> set (run config normalise rl evs). s u \<noteq> None"
  shows "sorted (Violations r # map (violations_at u) (map snd (run config normalise rl evs))) \<and>
         (3 \<le> Violations r \<longrightarrow>
            (\<forall>(ev, out, s) \<in> set (zip evs (run config normalise rl evs)).
               \<forall>t m. ev = Check t u m \<longrightarrow>
                 (\<exists>e. out = Some (False, Some e) \<and>
                    (Code e = ''REPEAT_OFFENDER'' \<longrightarrow>
                       timeout_at u s \<in> {t + 5 * Minute, t + 10 * Minute, t + 30 * Minute}))))"
  using assms
proof (induction evs arbitrary: rl r)
  case Nil
  then show ?case by simp
next
  case (Cons ev evs)
  show ?case
  proof (cases ev)
    case (Check t v m)
    obtain res rl1 where s: "CheckMessage config normalise t rl v m = (res, rl1)"
      by (cases "CheckMessage config normalise t rl v m")
    from CheckMessage_violations_mono[where rl=rl and u=u and r=r, OF Cons.prems(1), of config normalise t v m] s
    obtain r1 where r1: "rl1 u = Some r1" and mono: "Violations r \<le> Violations r1" by auto
    have rest: "\<forall>(out, s) \<in> set (run config normalise rl1 evs). s u \<noteq> None"
      using Cons.prems(2) Check s by simp
    note IH = Cons.IH[where rl=rl1 and r=r1, OF r1 rest]
    have hd: "\<exists>e. res = (False, Some e) \<and>
                (Code e = ''REPEAT_OFFENDER'' \<longrightarrow>
                   timeout_at u rl1 \<in> {t + 5 * Minute, t + 10 * Minute, t + 30 * Minute})"
      if "3 \<le> Violations r" "v = u"
      using checkRecord_offender_denied[OF that(1), of config normalise t m]
        CheckMessage_existing[where rl=rl and u=u and r=r, OF Cons.prems(1), of config normalise t m]
        s that(2)
      by (auto simp: timeout_at_def)
    have v1: "violations_at u rl1 = Violations r1" by (simp add: violations_at_def r1)
    show ?thesis
      using IH mono hd by (auto simp: Check s v1)
  next
    case (Reap t)
    define rl1 where "rl1 = performCleanup t rl"
    have "rl1 u \<noteq> None" using Cons.prems(2) Reap by (simp add: rl1_def Let_def)
    then obtain r1 where r1: "rl1 u = Some r1" by auto
    then have "r1 = r" using performCleanup_keeps[of t rl u r1] Cons.prems(1) by (simp add: rl1_def)
    have rest: "\<forall>(out, s) \<in> set (run config normalise rl1 evs). s u \<noteq> None"
      using Cons.prems(2) Reap by (simp add: rl1_def Let_def)
    note IH = Cons.IH[where rl=rl1 and r=r1, OF r1 rest]
    have v1: "violations_at u rl1 = Violations r" by (simp add: violations_at_def r1 \<open>r1 = r\<close>)
    show ?thesis
      using IH \<open>r1 = r\<close> by (auto simp: Reap Let_def v1 simp flip: rl1_def)
  qed
qed

text \<open>
  Claim C10. Along every run of checks (of any users) and reaper passes during which the
  record of user \<open>u\<close> is never deleted, the violation counter of that record never
  decreases from one step to the next; and when the record starts with at least three
  violations, every check of a message of \<open>u\<close> in the run is denied, and a denial with
  \<^verbatim>\<open>REPEAT_OFFENDER\<close> sets the timeout to 5, 10 or 30 minutes after the check.
\<close>

theorem violations_never_decrease:
  assumes "rl u = Some r"
    and "\<forall>(out, s) \<in> set (run config normalise rl evs). s u \<noteq> None"
  shows "sorted (map (violations_at u) (rl # map snd (run config normalise rl evs))) \<and>
         (3 \<le> Violations r \<longrightarrow>
            (\<forall>(ev, out, s) \<in> set (zip evs (run config normalise rl evs)).
               \<forall>t m. ev = Check t u m \<longrightarrow>
                 (\<exists>e. out = Some (False, Some e) \<and>
                    (Code e = ''REPEAT_OFFENDER'' \<longrightarrow>
                       timeout_at u s \<in> {t + 5 * Minute, t + 10 * Minute, t + 30 * Minute}))))"
proof -
  have "violations_at u rl = Violations r" using assms(1) by (simp add: violations_at_def)
  then show ?thesis
    using run_violations[where rl=rl and u=u and r=r, OF assms] by simp
qed

text \<open>
  A record with three violations and a message recorded at second 990: denied at second
  1000, kept by the reaper at second 1100, denied again at second 1400.
\<close>

theorem violations_never_decrease_witness:
  "map (violations_at ''u'')
     ([''u'' \<mapsto> recent_offender] #
      map snd (run DefaultConfig asciiNormalise [''u'' \<mapsto> recent_offender] offender_run)) = [3, 3, 3, 3] \<and>
   map (map_option fst \<circ> fst) (run DefaultConfig asciiNormalise [''u'' \<mapsto> recent_offender] offender_run) =
     [Some False, None, Some False]"
proof -
  define r1 where "r1 = recent_offender\<lparr>TimeoutUntil := 1300 * Second, LastCleanup := 1000 * Second\<rparr>"
  define r2 where "r2 = r1\<lparr>TimeoutUntil := 1700 * Second, LastCleanup := 1400 * Second,
     Messages := [], MessageContents := [], CharCountHistory := []\<rparr>"
  have c1: "CheckMessage DefaultConfig asciiNormalise (1000 * Second) [''u'' \<mapsto> recent_offender] ''u'' ''hi'' =
      ((False, Some \<lparr>Code = ''REPEAT_OFFENDER'', Message = ''Multiple violations. (5 minute timeout)''\<rparr>),
       [''u'' \<mapsto> r1])"
    by (simp add: CheckMessage_def getOrCreateRecord_def checkRecord_def Let_def
      cleanup_def countMessagesInWindow_def countCharsInWindow_def charRateCheck_def
      isDuplicateSpam_def repeatOffender_def applyTimeout_def DefaultConfig_def offender_def
      recent_offender_def r1_def Minute_def Second_def)
  have c2: "performCleanup (1100 * Second) [''u'' \<mapsto> r1] = [''u'' \<mapsto> r1]"
    by (auto simp: performCleanup_def r1_def recent_offender_def offender_def Minute_def Second_def)
  have c3: "CheckMessage DefaultConfig asciiNormalise (1400 * Second) [''u'' \<mapsto> r1] ''u'' ''hi again'' =
      ((False, Some \<lparr>Code = ''REPEAT_OFFENDER'', Message = ''Multiple violations. (5 minute timeout)''\<rparr>),
       [''u'' \<mapsto> r2])"
    by (simp add: CheckMessage_def getOrCreateRecord_def checkRecord_def Let_def
      cleanup_def countMessagesInWindow_def countCharsInWindow_def charRateCheck_def
      isDuplicateSpam_def repeatOffender_def applyTimeout_def DefaultConfig_def offender_def
      recent_offender_def r1_def r2_def Minute_def Second_def)
  have run: "run DefaultConfig asciiNormalise [''u'' \<mapsto> recent_offender] offender_run =
     [(Some (False, Some \<lparr>Code = ''REPEAT_OFFENDER'', Message = ''Multiple violations. (5 minute timeout)''\<rparr>), [''u'' \<mapsto> r1]),
      (None, [''u'' \<mapsto> r1]),
      (Some (False, Some \<lparr>Code = ''REPEAT_OFFENDER'', Message = ''Multiple violations. (5 minute timeout)''\<rparr>), [''u'' \<mapsto> r2])]"
    by (simp add: offender_run_def c1 c2 c3)
  have v: "violations_at ''u'' [''u'' \<mapsto> recent_offender] = 3" "violations_at ''u'' [''u'' \<mapsto> r1] = 3"
     "violations_at ''u'' [''u'' \<mapsto> r2] = 3"
    by (simp_all add: violations_at_def recent_offender_def offender_def r1_def r2_def)
  have "sorted (map (violations_at ''u'') ([''u'' \<mapsto> recent_offender] #
      map snd (run DefaultConfig asciiNormalise [''u'' \<mapsto> recent_offender] offender_run)))"
    using violations_never_decrease[where rl="[''u'' \<mapsto> recent_offender]" and u="''u''"
        and r=recent_offender and config=DefaultConfig and normalise=asciiNormalise
        and evs=offender_run]
    by (simp add: run)
  then show ?thesis by (simp add: run v)
qed

subsection \<open>The session: denials\<close>

lemma checkRecord_deny_has_error:
  "fst (fst (checkRecord config normalise now r m)) = False \<Longrightarrow>
   \<exists>e. snd (fst (checkRecord config normalise now r m)) = Some e"
  by (auto simp: checkRecord_def Let_def split: if_splits option.splits prod.splits)

lemma CheckMessage_deny_has_error:
  assumes "CheckMessage config normalise now rl u m = ((False, err), rl')"
  shows "\<exists>e. err = Some e"
proof -
  define r where "r = fst (getOrCreateRecord now rl u)"
  have "fst (CheckMessage config normalise now rl u m) = fst (checkRecord config normalise now r m)"
    by (simp add: CheckMessage_def r_def Let_def split: prod.splits)
  with assms have "fst (checkRecord config normalise now r m) = (False, err)" by simp
  then show ?thesis
    using checkRecord_deny_has_error[of config normalise now r m] by simp
qed

text \<open>
  Claim C5 as stated fails: the user is timed out, the check denies with \<^verbatim>\<open>TIMEOUT\<close>,
  and the frame put on the sender's channel has type \<^verbatim>\<open>rate_limit\<close>, not \<^verbatim>\<open>error\<close>.
\<close>

theorem denial_frame_type_counterexample:
  "map_option Code (snd (fst (CheckMessage DefaultConfig asciiNormalise (1000 * Second)
      (rateLimiter timed_out_handler) ''u'' ''hi''))) = Some ''TIMEOUT'' \<and>
   map ws_Type (frames_of (handleChatMessage DefaultConfig asciiNormalise (1000 * Second) ''id-1''
      alice (chat_frame ''hi'') timed_out_handler) 1) = [''rate_limit'']"
  by (simp add: handleChatMessage_def CheckMessage_def getOrCreateRecord_def checkRecord_def
      timed_out_handler_def alice_def chat_frame_def frames_of_def offender_def send_def
      enqueue_def chanCapacity_def Second_def Let_def)

text \<open>
  Claim C5, as amended. A joined session sends a \<^verbatim>\<open>message\<close> frame with a non-empty text
  and the limiter denies it, at whatever tier. While the sender's channel is full (256
  frames) the handler waits at its send. When the channel has room the handler returns,
  and all it has done beside the limiter's own update is to put one frame on the
  sender's channel: its type is \<^verbatim>\<open>rate_limit\<close> and its error field is the message text of
  the limiter's error. No other channel receives a frame and no room changes.
\<close>

theorem denial_is_rate_limit_frame_to_sender:
  assumes "conn_UserID c \<noteq> []"
    and "map_of msg ''data'' = Some (JObject data)"
    and "map_of data ''message'' = Some (JString message)"
    and "message \<noteq> []"
    and "CheckMessage config normalise now (rateLimiter h) (conn_UserID c) message =
           ((False, err), rl')"
  shows "\<exists>e. err = Some e \<and>
           handleChatMessage config normalise now newID c msg h =
             (if length (channels h (conn_Send c)) < chanCapacity
              then Returns (h\<lparr>rateLimiter := rl',
                        channels := (channels h)
                          (conn_Send c := channels h (conn_Send c) @
                             [\<lparr>ws_Type = ''rate_limit'', ws_Data = None, ws_Error = Message e,
                               ws_Timestamp = now\<rparr>])\<rparr>)
              else Blocks)"
proof -
  from CheckMessage_deny_has_error[OF assms(5)] obtain e where e: "err = Some e" by blast
  show ?thesis
    using assms e by (simp add: handleChatMessage_def send_def enqueue_def)
qed

text \<open>
  The timed-out user: the frame goes to the sender's channel 1, the channel 2 of the
  other member of the room stays empty.
\<close>

theorem denial_is_rate_limit_frame_to_sender_witness:
  "frames_of (handleChatMessage DefaultConfig asciiNormalise (1000 * Second) ''id-1''
      alice (chat_frame ''hi'') timed_out_handler) 1 =
     [\<lparr>ws_Type = ''rate_limit'', ws_Data = None,
       ws_Error = ''You are timed out. Please wait before sending messages.'',
       ws_Timestamp = 1000 * Second\<rparr>] \<and>
   frames_of (handleChatMessage DefaultConfig asciiNormalise (1000 * Second) ''id-1''
      alice (chat_frame ''hi'') timed_out_handler) 2 = []"
proof -
  have c: "CheckMessage DefaultConfig asciiNormalise (1000 * Second)
             (rateLimiter timed_out_handler) (conn_UserID alice) ''hi'' =
           ((False, Some timeoutError), rateLimiter timed_out_handler)"
    by (simp add: CheckMessage_def getOrCreateRecord_def checkRecord_def timeoutError_def
        timed_out_handler_def alice_def offender_def Second_def Let_def)
  have "\<exists>e. Some timeoutError = Some e \<and>
          handleChatMessage DefaultConfig asciiNormalise (1000 * Second) ''id-1'' alice
            (chat_frame ''hi'') timed_out_handler =
          (if length (channels timed_out_handler (conn_Send alice)) < chanCapacity
           then Returns (timed_out_handler\<lparr>rateLimiter := rateLimiter timed_out_handler,
             channels := (channels timed_out_handler)
               (conn_Send alice := channels timed_out_handler (conn_Send alice) @
                  [\<lparr>ws_Type = ''rate_limit'', ws_Data = None, ws_Error = Message e,
                    ws_Timestamp = 1000 * Second\<rparr>])\<rparr>)
           else Blocks)"
    by (rule denial_is_rate_limit_frame_to_sender[where data="[(''message'', JString ''hi'')]"
          and message="''hi''", OF _ _ _ _ c])
       (simp_all add: alice_def chat_frame_def)
  then show ?thesis
    by (simp add: frames_of_def timeoutError_def alice_def timed_out_handler_def chanCapacity_def)
qed

text \<open>
  The same denial when the sender's channel already holds 256 frames: the handler
  waits at its send and no frame is added.
\<close>

lemma denial_waits_on_full_channel:
  "handleChatMessage DefaultConfig asciiNormalise (1000 * Second) ''id-1'' alice (chat_frame ''hi'')
     (timed_out_handler\<lparr>channels := (\<lambda>ch. replicate 256
        \<lparr>ws_Type = ''typing'', ws_Data = None, ws_Error = [], ws_Timestamp = 0\<rparr>)\<rparr>) = Blocks"
  by (simp add: handleChatMessage_def CheckMessage_def getOrCreateRecord_def checkRecord_def
      timed_out_handler_def alice_def chat_frame_def offender_def send_def
      chanCapacity_def Second_def Let_def)

end
